theory Spec2Isabelle
  imports Complex_Main
begin

section \<open>Data model\<close>

text \<open>
  The tables of \<^verbatim>\<open>supabase_schema.sql\<close> as records, one record per row.
  Identifiers (uuid), statuses, endpoints and keys are strings, and so are the product
  names, which the code only copies; what a customer types is a \<open>js_string\<close> (below).
  Timestamps are clock readings (\<open>nat\<close>), a nullable column is an \<open>option\<close>. The
  field names are the column names with the table's initial in front, since two records
  cannot share a field name.

  A \<^verbatim>\<open>numeric(10,2)\<close> column reaches the client as a JavaScript number, an
  IEEE-754 double. Its type is the parameter \<open>'n\<close>, and the arithmetic the pages do on
  it is passed in (\<open>js_number\<close> below): no theorem here depends on how doubles round.
\<close>

text \<open>
  What a customer types (name, note) is a JavaScript string: a sequence of UTF-16 code
  units, here a list of numbers. \<open>js\<close> reads an ASCII literal as such a string.
\<close>

type_synonym js_string = "nat list"

definition js :: "string \<Rightarrow> js_string" where
  "js s = map of_char s"

record 'n order_row =
  o_id :: string
  o_business_id :: string
  o_customer_name :: js_string
  o_customer_note :: "js_string option"
  o_status :: string
  o_total :: 'n
  o_created_at :: nat
  o_fulfilled_at :: "nat option"

record 'n item_row =
  i_id :: string
  i_order_id :: string
  i_product_id :: "string option"
  i_name :: string
  i_price :: 'n
  i_quantity :: nat

record sub_row =
  s_id :: string
  s_business_id :: string
  s_endpoint :: string
  s_p256dh :: string
  s_auth :: string
  s_created_at :: nat

record 'n store =
  orders :: "'n order_row list"
  order_items :: "'n item_row list"
  push_subscriptions :: "sub_row list"

text \<open>
  An order as the dashboard holds it: the row selected with \<^verbatim>\<open>"*, order_items(*)"\<close>,
  that is the row's columns and the list of its line items.
\<close>

record 'n dash_order =
  d_row :: "'n order_row"
  d_items :: "'n item_row list"

text \<open>
  What the pages report to the user. A branch that tells the user the call failed
  (\<^verbatim>\<open>alert(...)\<close>) and returns is an error value carrying the alert's text; a bare
  \<^verbatim>\<open>return\<close> is a normal return. \<open>InvalidTransitionError\<close> and \<open>ConflictError\<close>
  are the names of the failures a status transition could report.
\<close>

datatype error =
    ValidationError string
  | PersistenceError string
  | InvalidTransitionError
  | ConflictError

datatype toast = ToastNewOrder js_string | ToastAdvanced string string

record 'n dashboard =
  d_orders :: "'n dash_order list"
  d_toast :: "toast option"

section \<open>The order store\<close>

text \<open>
  \<^verbatim>\<open>supabase.from("orders").update(patch).eq("id", x)\<close>: every row whose id is \<open>x\<close>
  is patched, the others stay. The only condition of the statement is the id.
\<close>

definition orders_update_eq_id ::
  "('n order_row \<Rightarrow> 'n order_row) \<Rightarrow> string \<Rightarrow> 'n store \<Rightarrow> 'n store" where
  "orders_update_eq_id patch x st =
     st\<lparr>orders := map (\<lambda>r. if o_id r = x then patch r else r) (orders st)\<rparr>"

text \<open>
  \<^verbatim>\<open>supabase.from("orders").select("*, order_items(*)").eq("id", x).single()\<close>:
  the one row with that id together with its line items; \<^verbatim>\<open>single()\<close> gives no data
  when there is no such row or more than one.
\<close>

definition orders_select_single ::
  "string \<Rightarrow> 'n store \<Rightarrow> 'n dash_order option" where
  "orders_select_single x st =
     (case filter (\<lambda>r. o_id r = x) (orders st) of
        [r] \<Rightarrow> Some \<lparr>d_row = r, d_items = filter (\<lambda>i. i_order_id i = x) (order_items st)\<rparr>
      | _ \<Rightarrow> None)"

section \<open>Status transitions (DashboardPage.jsx)\<close>

definition STATUS_FLOW :: "string list" where
  "STATUS_FLOW = [''pending'', ''preparing'', ''ready'', ''fulfilled'']"

text \<open>\<^verbatim>\<open>Array.prototype.indexOf\<close>: the first position of the element, \<open>-1\<close> when absent.\<close>

fun indexOf :: "'a list \<Rightarrow> 'a \<Rightarrow> int" where
  "indexOf [] y = -1"
| "indexOf (x # xs) y =
     (if x = y then 0 else (let i = indexOf xs y in if i < 0 then -1 else i + 1))"

text \<open>
  \<^verbatim>\<open>advanceStatus(order)\<close>. \<open>ord\<close> is the order object of the dashboard's list the
  button was rendered from, \<open>now\<close> is the reading of \<^verbatim>\<open>new Date()\<close>. Past the guard
  \<open>currentIdx\<close> is between \<open>-1\<close> and \<open>2\<close>, so \<open>currentIdx + 1\<close> is a position of
  \<open>STATUS_FLOW\<close> (lemma \<open>advance_index_in_range\<close>). \<open>update_refused\<close> says that the
  store did not apply the update (an error, or no row the session may update); the source
  does not look at the update's answer, so the dashboard shows the next status either
  way, and the function has no failing branch. The animation flag
  \<^verbatim>\<open>justFulfilled\<close> and the timers that clear it and the toast are not modelled.
\<close>

definition advanceStatus ::
  "bool \<Rightarrow> nat \<Rightarrow> 'n dash_order \<Rightarrow> 'n store \<times> 'n dashboard
     \<Rightarrow> error + ('n store \<times> 'n dashboard)" where
  "advanceStatus update_refused now ord w =
     (let currentIdx = indexOf STATUS_FLOW (o_status (d_row ord)) in
      if currentIdx \<ge> int (length STATUS_FLOW) - 1 then Inr w
      else
        let nextStatus = STATUS_FLOW ! nat (currentIdx + 1);
            st' = (if update_refused then fst w
                   else orders_update_eq_id
                          (\<lambda>r. if nextStatus = ''fulfilled''
                                then r\<lparr>o_status := nextStatus, o_fulfilled_at := Some now\<rparr>
                                else r\<lparr>o_status := nextStatus\<rparr>)
                          (o_id (d_row ord)) (fst w));
            ui' = (snd w)\<lparr>
                    d_orders := map (\<lambda>p. if o_id (d_row p) = o_id (d_row ord)
                                          then p\<lparr>d_row := (d_row p)\<lparr>o_status := nextStatus\<rparr>\<rparr>
                                          else p) (d_orders (snd w)),
                    d_toast := Some (ToastAdvanced (o_id (d_row ord)) nextStatus)\<rparr>
        in Inr (st', ui'))"

text \<open>
  The chain of the specification, \<open>pending \<rightarrow> preparing \<rightarrow> ready \<rightarrow> fulfilled\<close>, written
  from its words: the successor of each of the three forward states. A status with no
  successor is returned as it is.
\<close>

fun chain_successor :: "string \<Rightarrow> string" where
  "chain_successor s =
     (if s = ''pending'' then ''preparing''
      else if s = ''preparing'' then ''ready''
      else if s = ''ready'' then ''fulfilled''
      else s)"

text \<open>What the store's update does to a row when the successor is \<open>s'\<close>.\<close>

definition advanced_row :: "nat \<Rightarrow> string \<Rightarrow> 'n order_row \<Rightarrow> 'n order_row" where
  "advanced_row now s' r =
     r\<lparr>o_status := s',
       o_fulfilled_at := (if s' = ''fulfilled'' then Some now else o_fulfilled_at r)\<rparr>"

section \<open>Live order events (DashboardPage.jsx, the realtime effect)\<close>

text \<open>
  The handler of an \<^verbatim>\<open>INSERT\<close> event: it reads the id of \<^verbatim>\<open>payload.new\<close>,
  fetches that order with its items from the store and, when the fetch gives data, puts it
  in front of the list and shows a toast.
\<close>

definition on_INSERT :: "'n order_row \<Rightarrow> 'n store \<Rightarrow> 'n dashboard \<Rightarrow> 'n dashboard" where
  "on_INSERT payload_new st ui =
     (case orders_select_single (o_id payload_new) st of
        None \<Rightarrow> ui
      | Some data \<Rightarrow>
          ui\<lparr>d_orders := data # d_orders ui,
             d_toast := Some (ToastNewOrder (o_customer_name (d_row data)))\<rparr>)"

text \<open>
  The handler of an \<^verbatim>\<open>UPDATE\<close> event:
  \<^verbatim>\<open>prev.map(o => o.id === payload.new.id ? { ...o, ...payload.new } : o)\<close>.
  \<^verbatim>\<open>payload.new\<close> holds every column of the row, so the spread replaces the columns
  and keeps the items.
\<close>

definition on_UPDATE :: "'n order_row \<Rightarrow> 'n dashboard \<Rightarrow> 'n dashboard" where
  "on_UPDATE payload_new ui =
     ui\<lparr>d_orders := map (\<lambda>p. if o_id (d_row p) = o_id payload_new
                                then p\<lparr>d_row := payload_new\<rparr> else p) (d_orders ui)\<rparr>"

text \<open>
  The two listeners the effect registers on the channel: the arguments of its two
  \<^verbatim>\<open>.on("postgres_changes", {...}, handler)\<close> calls for the business \<open>b\<close>. The filter
  \<^verbatim>\<open>business_id=eq.b\<close> is kept as the column and the value it names.
\<close>

datatype change_kind = INSERT | UPDATE

record listener =
  l_event :: change_kind
  l_schema :: string
  l_table :: string
  l_filter_column :: string
  l_filter_value :: string

definition dashboard_listeners :: "string \<Rightarrow> listener list" where
  "dashboard_listeners b =
     [\<lparr>l_event = INSERT, l_schema = ''public'', l_table = ''orders'',
        l_filter_column = ''business_id'', l_filter_value = b\<rparr>,
      \<lparr>l_event = UPDATE, l_schema = ''public'', l_table = ''orders'',
        l_filter_column = ''business_id'', l_filter_value = b\<rparr>]"

record 'n change =
  c_kind :: change_kind
  c_schema :: string
  c_table :: string
  c_new :: "'n order_row"

text \<open>The text columns of an order row by name, as a filter addresses them.\<close>

definition order_column :: "string \<Rightarrow> 'n order_row \<Rightarrow> js_string option" where
  "order_column c r =
     (if c = ''id'' then Some (js (o_id r))
      else if c = ''business_id'' then Some (js (o_business_id r))
      else if c = ''customer_name'' then Some (o_customer_name r)
      else if c = ''customer_note'' then o_customer_note r
      else if c = ''status'' then Some (js (o_status r))
      else None)"

text \<open>
  Modelled from the spec: the live change-event feed (the realtime service behind
  \<^verbatim>\<open>supabase.channel\<close>, whose code is not among the sources). Section 6 of the
  specification gives the contract: a feed scoped by business id that emits insert and update
  events for orders; section 4.3 says the scoping is done on the server. A listener gets
  a change when the change is of its event kind, on its schema and table, and the row's
  filter column holds the filter's value.
\<close>

definition feed_delivers :: "listener \<Rightarrow> 'n change \<Rightarrow> bool" where
  "feed_delivers l c =
     (c_kind c = l_event l \<and> c_schema c = l_schema l \<and> c_table c = l_table l \<and>
      order_column (l_filter_column l) (c_new c) = Some (js (l_filter_value l)))"

definition session_receives :: "string \<Rightarrow> 'n change \<Rightarrow> bool" where
  "session_receives b c = list_ex (\<lambda>l. feed_delivers l c) (dashboard_listeners b)"

section \<open>Order intake (MenuPage.jsx)\<close>

text \<open>
  The columns of a product the page reads. The cart is the object
  \<^verbatim>\<open>{ productId: quantity }\<close>; quantities are the counts \<^verbatim>\<open>addToCart\<close> builds.
\<close>

record 'n product =
  p_id :: string
  p_name :: string
  p_price :: 'n

type_synonym cart = "string \<Rightarrow> nat option"

text \<open>
  The operations on JavaScript numbers the page uses: the literal \<open>0\<close>, \<open>s + x\<close>,
  \<open>price * quantity\<close> and \<^verbatim>\<open>parseFloat(x.toFixed(2))\<close>.
\<close>

record 'n js_number =
  num_zero :: 'n
  num_add :: "'n \<Rightarrow> 'n \<Rightarrow> 'n"
  num_mul :: "'n \<Rightarrow> nat \<Rightarrow> 'n"
  num_toFixed2 :: "'n \<Rightarrow> 'n"

definition addToCart :: "string \<Rightarrow> cart \<Rightarrow> cart" where
  "addToCart x c = c(x \<mapsto> (case c x of None \<Rightarrow> 0 | Some q \<Rightarrow> q) + 1)"

definition removeFromCart :: "string \<Rightarrow> cart \<Rightarrow> cart" where
  "removeFromCart x c =
     (case c x of
        Some q \<Rightarrow> if q > 1 then c(x \<mapsto> q - 1) else c(x := None)
      | None \<Rightarrow> c)"

text \<open>\<^verbatim>\<open>cart[p.id]\<close> as a condition: a missing entry and \<open>0\<close> are both falsy.\<close>

definition in_cart :: "cart \<Rightarrow> 'n product \<Rightarrow> bool" where
  "in_cart c p = (case c (p_id p) of None \<Rightarrow> False | Some q \<Rightarrow> q \<noteq> 0)"

definition quantity_of :: "cart \<Rightarrow> 'n product \<Rightarrow> nat" where
  "quantity_of c p = (case c (p_id p) of None \<Rightarrow> 0 | Some q \<Rightarrow> q)"

definition cartItems :: "'n product list \<Rightarrow> cart \<Rightarrow> 'n product list" where
  "cartItems products c = filter (in_cart c) products"

definition cartTotal :: "'n js_number \<Rightarrow> 'n product list \<Rightarrow> cart \<Rightarrow> 'n" where
  "cartTotal ar products c =
     foldl (\<lambda>s p. num_add ar s (num_mul ar (p_price p) (quantity_of c p)))
       (num_zero ar) (cartItems products c)"

text \<open>
  \<^verbatim>\<open>String.prototype.trim\<close>: the white space and the line terminators of both ends
  go. These are, in the language's definition, the code units of \<open>is_space\<close>: tab, line
  feed, vertical tab, form feed, carriage return, space, no-break space (U+00A0), the
  other space separators of Unicode (U+1680, U+2000 to U+200A, U+202F, U+205F, U+3000),
  the line and paragraph separators (U+2028, U+2029) and the byte order mark (U+FEFF).
  All of them are single code units.
\<close>

definition is_space :: "nat \<Rightarrow> bool" where
  "is_space c =
     (c \<in> set [0x9, 0xA, 0xB, 0xC, 0xD, 0x20, 0xA0, 0x1680,
                0x2000, 0x2001, 0x2002, 0x2003, 0x2004, 0x2005, 0x2006, 0x2007, 0x2008,
                0x2009, 0x200A, 0x2028, 0x2029, 0x202F, 0x205F, 0x3000, 0xFEFF])"

definition trim :: "js_string \<Rightarrow> js_string" where
  "trim s = rev (dropWhile is_space (rev (dropWhile is_space s)))"

text \<open>
  What the store answers to the two inserts of one call: the id and creation time it
  gives the order, the ids it gives the line items (by position), and whether it rejects
  the order insert or the line-item insert.
\<close>

record intake_env =
  e_order_id :: string
  e_now :: nat
  e_item_id :: "nat \<Rightarrow> string"
  e_order_insert_error :: bool
  e_items_insert_error :: bool

text \<open>
  \<^verbatim>\<open>supabase.from("orders").insert({...}).select().single()\<close>: on an error no row is
  stored; otherwise the row, with the id and \<^verbatim>\<open>created_at\<close> of the store's defaults
  and \<^verbatim>\<open>fulfilled_at\<close> null (the insert names no such column), is stored and returned.
\<close>

definition orders_insert ::
  "intake_env \<Rightarrow> string \<Rightarrow> js_string \<Rightarrow> js_string option \<Rightarrow> string \<Rightarrow> 'n \<Rightarrow> 'n store
     \<Rightarrow> ('n order_row \<times> 'n store) option" where
  "orders_insert env b name note status_v total_v st =
     (if e_order_insert_error env then None
      else
        let row = \<lparr>o_id = e_order_id env, o_business_id = b, o_customer_name = name,
                   o_customer_note = note, o_status = status_v, o_total = total_v,
                   o_created_at = e_now env, o_fulfilled_at = None\<rparr>
        in Some (row, st\<lparr>orders := orders st @ [row]\<rparr>))"

text \<open>
  \<^verbatim>\<open>supabase.from("order_items").insert(items)\<close>: one statement for the whole list,
  which stores every item or, on an error, none.
\<close>

definition order_items_insert ::
  "intake_env \<Rightarrow> 'n item_row list \<Rightarrow> 'n store \<Rightarrow> 'n store option" where
  "order_items_insert env items st =
     (if e_items_insert_error env then None
      else Some (st\<lparr>order_items := order_items st @ items\<rparr>))"

definition line_items ::
  "intake_env \<Rightarrow> string \<Rightarrow> 'n product list \<Rightarrow> cart \<Rightarrow> 'n item_row list" where
  "line_items env oid products c =
     map (\<lambda>(k, p). \<lparr>i_id = e_item_id env k, i_order_id = oid, i_product_id = Some (p_id p),
                     i_name = p_name p, i_price = p_price p, i_quantity = quantity_of c p\<rparr>)
       (enumerate 0 (cartItems products c))"

text \<open>The texts of the three alerts (the dash of the second is written \<open>-\<close>).\<close>

definition name_alert :: string where
  "name_alert = ''Please enter your name so we know whose order it is!''"

definition cart_alert :: string where
  "cart_alert = ''Your cart is empty - add something first!''"

definition failed_alert :: string where
  "failed_alert = ''Something went wrong placing your order. Please try again!''"

text \<open>
  \<^verbatim>\<open>submitOrder()\<close>, on the page's state (business id, products, cart, customer name
  and note). \<open>Inr oid\<close> is the branch that reaches \<^verbatim>\<open>setOrderId(order.id);
  setConfirmed(true)\<close>, the confirmation popup. \<open>Inl\<close> is an alert: the two checks at the
  top return after theirs, and the \<^verbatim>\<open>catch\<close> block shows one for whatever was thrown
  (\<open>orderErr\<close>, \<open>itemsErr\<close>).
\<close>

definition submitOrder ::
  "intake_env \<Rightarrow> 'n js_number \<Rightarrow> string \<Rightarrow> 'n product list \<Rightarrow> cart
     \<Rightarrow> js_string \<Rightarrow> js_string \<Rightarrow> 'n store \<Rightarrow> (error + string) \<times> 'n store" where
  "submitOrder env ar business_id products c customerName customerNote st =
     (if trim customerName = [] then (Inl (ValidationError name_alert), st)
      else if length (cartItems products c) = 0 then (Inl (ValidationError cart_alert), st)
      else
        (case orders_insert env business_id (trim customerName)
                (if trim customerNote = [] then None else Some (trim customerNote))
                ''pending'' (num_toFixed2 ar (cartTotal ar products c)) st of
           None \<Rightarrow> (Inl (PersistenceError failed_alert), st)
         | Some (order, st1) \<Rightarrow>
             (case order_items_insert env (line_items env (o_id order) products c) st1 of
                None \<Rightarrow> (Inl (PersistenceError failed_alert), st1)
              | Some st2 \<Rightarrow> (Inr (o_id order), st2))))"

section \<open>Push subscriptions (lib/push.js)\<close>

text \<open>
  Who is calling the store: the user of the session (\<^verbatim>\<open>auth.uid()\<close>, none when
  nobody is signed in), and the owner of each business as the \<^verbatim>\<open>businesses\<close> table
  gives it (\<^verbatim>\<open>select owner_id from businesses where id = ...\<close>; none when there is
  no such business or it has no owner). The calls modelled here never write that table.
\<close>

record session =
  auth_uid :: "string option"
  business_owner :: "string \<Rightarrow> string option"

text \<open>
  The row-level-security policy of the schema on \<^verbatim>\<open>push_subscriptions\<close>,
  \<^verbatim>\<open>"owner manages push" for all using (auth.uid() = (select owner_id from businesses
  where id = business_id))\<close>, on a row of the business \<open>b\<close>. A comparison with a missing
  value is not true.
\<close>

definition owner_manages_push :: "session \<Rightarrow> string \<Rightarrow> bool" where
  "owner_manages_push se b =
     (case auth_uid se of
        None \<Rightarrow> False
      | Some u \<Rightarrow> (case business_owner se b of None \<Rightarrow> False | Some w \<Rightarrow> u = w))"

text \<open>
  Whether the store accepts the upsert of the endpoint \<open>e\<close> for the business \<open>b\<close>: the
  policy must hold on the row proposed for insertion and, when a row with that endpoint
  is stored, on that row too (it is the row the statement would update). Otherwise the
  statement fails with an error and changes nothing.
\<close>

definition upsert_accepted :: "session \<Rightarrow> string \<Rightarrow> string \<Rightarrow> 'n store \<Rightarrow> bool" where
  "upsert_accepted se b e st =
     (owner_manages_push se b \<and>
      list_all (\<lambda>r. owner_manages_push se (s_business_id r))
        (filter (\<lambda>r. s_endpoint r = e) (push_subscriptions st)))"

text \<open>
  \<^verbatim>\<open>supabase.from("push_subscriptions").upsert(row, { onConflict: "endpoint" })\<close> on a
  table whose \<^verbatim>\<open>endpoint\<close> column is unique, under the policy above: when the store
  accepts the statement, a row with that endpoint takes the columns the call names and
  keeps its id and \<^verbatim>\<open>created_at\<close>, and when there is none a new row is stored; when
  the store refuses it, the table stays as it was.
\<close>

definition push_subscriptions_upsert ::
  "session \<Rightarrow> string \<Rightarrow> nat \<Rightarrow> string \<Rightarrow> string \<Rightarrow> string \<Rightarrow> string \<Rightarrow> 'n store \<Rightarrow> 'n store" where
  "push_subscriptions_upsert se new_id now b e p a st =
     (if \<not> upsert_accepted se b e st then st
      else
        st\<lparr>push_subscriptions :=
             (if e \<in> set (map s_endpoint (push_subscriptions st))
              then map (\<lambda>r. if s_endpoint r = e
                             then r\<lparr>s_business_id := b, s_endpoint := e, s_p256dh := p, s_auth := a\<rparr>
                             else r) (push_subscriptions st)
              else push_subscriptions st @
                     [\<lparr>s_id = new_id, s_business_id = b, s_endpoint = e, s_p256dh = p,
                       s_auth = a, s_created_at = now\<rparr>])\<rparr>)"

text \<open>
  What the browser and the store answer to one call of \<^verbatim>\<open>subscribeToPush\<close>, and the
  session that calls. \<open>None\<close> for the permission or the subscription is a rejected
  promise; the keys of \<^verbatim>\<open>subscription.toJSON()\<close> may be missing;
  \<open>pe_upsert_error\<close> is a failure of the upsert that is not the policy's (the network, the
  service). Every awaited promise is taken to settle.
\<close>

record push_subscription_json =
  ps_endpoint :: string
  ps_keys :: "(string \<times> string) option"

record push_env =
  pe_serviceWorker_in_navigator :: bool
  pe_PushManager_in_window :: bool
  pe_permission :: "string option"
  pe_subscribe :: "push_subscription_json option"
  pe_session :: session
  pe_upsert_error :: bool
  pe_new_id :: string
  pe_now :: nat

text \<open>
  \<^verbatim>\<open>subscribeToPush(businessId)\<close>. Everything after the support check runs in a
  \<^verbatim>\<open>try\<close> whose \<^verbatim>\<open>catch\<close> returns \<^verbatim>\<open>false\<close>; reading \<^verbatim>\<open>keys.p256dh\<close> of
  missing keys throws there. The answer of the upsert is not looked at: the function
  returns \<^verbatim>\<open>true\<close> also when the store refused the row.
\<close>

definition subscribeToPush :: "push_env \<Rightarrow> string \<Rightarrow> 'n store \<Rightarrow> bool \<times> 'n store" where
  "subscribeToPush env businessId st =
     (if \<not> pe_serviceWorker_in_navigator env \<or> \<not> pe_PushManager_in_window env
      then (False, st)
      else
        (case pe_permission env of
           None \<Rightarrow> (False, st)
         | Some permission \<Rightarrow>
             if permission \<noteq> ''granted'' then (False, st)
             else
               (case pe_subscribe env of
                  None \<Rightarrow> (False, st)
                | Some subscription \<Rightarrow>
                    (case ps_keys subscription of
                       None \<Rightarrow> (False, st)
                     | Some (p256dh, auth) \<Rightarrow>
                         (True,
                          if pe_upsert_error env then st
                          else push_subscriptions_upsert (pe_session env) (pe_new_id env)
                                 (pe_now env) businessId (ps_endpoint subscription)
                                 p256dh auth st)))))"

section \<open>The fulfilment property and example data\<close>


text \<open>
  Concrete data for the examples: the order \<open>o1\<close> of business \<open>b1\<close> with a given status
  and fulfilment time (totals in cents), the object the dashboard holds for it, a store
  with that one order, and a dashboard showing it.
\<close>

definition example_row :: "string \<Rightarrow> nat option \<Rightarrow> int order_row" where
  "example_row s f =
     \<lparr>o_id = ''o1'', o_business_id = ''b1'', o_customer_name = js ''Jamie'',
      o_customer_note = None, o_status = s, o_total = 1200, o_created_at = 1,
      o_fulfilled_at = f\<rparr>"

definition example_order :: "string \<Rightarrow> nat option \<Rightarrow> int dash_order" where
  "example_order s f = \<lparr>d_row = example_row s f, d_items = []\<rparr>"

definition example_store :: "string \<Rightarrow> nat option \<Rightarrow> int store" where
  "example_store s f = \<lparr>orders = [example_row s f], order_items = [], push_subscriptions = []\<rparr>"

definition example_dashboard :: "string \<Rightarrow> nat option \<Rightarrow> toast option \<Rightarrow> int dashboard" where
  "example_dashboard s f t = \<lparr>d_orders = [example_order s f], d_toast = t\<rparr>"

text \<open>
  Data for the intake examples: amounts in cents with exact arithmetic, a menu of two
  products, the cart of two lattes and a muffin, what the store answers, and the rows the
  call stores.
\<close>

definition example_number :: "int js_number" where
  "example_number =
     \<lparr>num_zero = 0, num_add = (+), num_mul = (\<lambda>p q. p * int q), num_toFixed2 = id\<rparr>"

definition example_products :: "int product list" where
  "example_products = [\<lparr>p_id = ''latte'', p_name = ''Latte'', p_price = 450\<rparr>,
                       \<lparr>p_id = ''muffin'', p_name = ''Muffin'', p_price = 300\<rparr>]"

definition example_cart :: cart where
  "example_cart = [''latte'' \<mapsto> 2, ''muffin'' \<mapsto> 1]"

definition example_env :: "bool \<Rightarrow> bool \<Rightarrow> intake_env" where
  "example_env order_fails items_fail =
     \<lparr>e_order_id = ''o2'', e_now = 3, e_item_id = (\<lambda>k. if k = 0 then ''i0'' else ''i1''),
      e_order_insert_error = order_fails, e_items_insert_error = items_fail\<rparr>"

definition example_items :: "int item_row list" where
  "example_items =
     [\<lparr>i_id = ''i0'', i_order_id = ''o2'', i_product_id = Some ''latte'', i_name = ''Latte'',
       i_price = 450, i_quantity = 2\<rparr>,
      \<lparr>i_id = ''i1'', i_order_id = ''o2'', i_product_id = Some ''muffin'', i_name = ''Muffin'',
       i_price = 300, i_quantity = 1\<rparr>]"

definition example_new_row :: "int order_row" where
  "example_new_row =
     \<lparr>o_id = ''o2'', o_business_id = ''b1'', o_customer_name = js ''Jamie'',
      o_customer_note = None, o_status = ''pending'', o_total = 1200, o_created_at = 3,
      o_fulfilled_at = None\<rparr>"

text \<open>An order event of the given kind for the order \<open>o1\<close>, moved to the business \<open>b\<close>.\<close>

definition example_change :: "change_kind \<Rightarrow> string \<Rightarrow> int change" where
  "example_change k b =
     \<lparr>c_kind = k, c_schema = ''public'', c_table = ''orders'',
      c_new = (example_row ''pending'' None)\<lparr>o_business_id := b\<rparr>\<rparr>"

text \<open>
  Data for the push examples: the businesses \<open>b1\<close> and \<open>b3\<close> of the user \<open>u1\<close> and the
  business \<open>b2\<close> of the user \<open>u2\<close>; the session of a user; a store that holds one
  subscription, of another device of \<open>b1\<close>; and a browser that supports push, grants the
  permission and subscribes with the given endpoint and keys, in the session of \<open>u1\<close>.
\<close>

definition example_owner :: "string \<Rightarrow> string option" where
  "example_owner = [''b1'' \<mapsto> ''u1'', ''b2'' \<mapsto> ''u2'', ''b3'' \<mapsto> ''u1'']"

definition example_session :: "string \<Rightarrow> session" where
  "example_session u = \<lparr>auth_uid = Some u, business_owner = example_owner\<rparr>"

definition example_sub :: sub_row where
  "example_sub =
     \<lparr>s_id = ''s0'', s_business_id = ''b1'', s_endpoint = ''https://push/e0'',
      s_p256dh = ''k0'', s_auth = ''a0'', s_created_at = 1\<rparr>"

definition example_push_store :: "int store" where
  "example_push_store = \<lparr>orders = [], order_items = [], push_subscriptions = [example_sub]\<rparr>"

definition example_push_env :: "string option \<Rightarrow> push_subscription_json option \<Rightarrow> push_env" where
  "example_push_env permission subscription =
     \<lparr>pe_serviceWorker_in_navigator = True, pe_PushManager_in_window = True,
      pe_permission = permission, pe_subscribe = subscription,
      pe_session = example_session ''u1'', pe_upsert_error = False,
      pe_new_id = ''s1'', pe_now = 5\<rparr>"

text \<open>The push example store after the endpoint \<open>e1\<close> was registered as the row \<open>s1\<close>.\<close>

definition example_registered :: "string \<Rightarrow> string \<Rightarrow> string \<Rightarrow> int store" where
  "example_registered b p a =
     \<lparr>orders = [], order_items = [],
      push_subscriptions =
        [example_sub,
         \<lparr>s_id = ''s1'', s_business_id = b, s_endpoint = ''https://push/e1'',
          s_p256dh = p, s_auth = a, s_created_at = 5\<rparr>]\<rparr>"

text \<open>
  Exact arithmetic on amounts: rational numbers, and \<^verbatim>\<open>toFixed(2)\<close> as rounding to
  the nearest hundredth, halves upwards. An amount of two decimals is a whole number of
  hundredths.
\<close>

definition exact_number :: "rat js_number" where
  "exact_number =
     \<lparr>num_zero = 0, num_add = (+), num_mul = (\<lambda>p q. p * of_nat q),
      num_toFixed2 = (\<lambda>x. of_int \<lfloor>x * 100 + 1 / 2\<rfloor> / 100)\<rparr>"

definition two_decimals :: "rat \<Rightarrow> bool" where
  "two_decimals x = (of_int \<lfloor>x * 100\<rfloor> = x * 100)"

section \<open>Properties of the status transitions\<close>

lemma indexOf_lower: "indexOf xs y \<ge> -1"
  by (induction xs) (auto simp: Let_def)



lemma advance_index_in_range:
  "indexOf STATUS_FLOW s < int (length STATUS_FLOW) - 1 \<Longrightarrow>
   nat (indexOf STATUS_FLOW s + 1) < length STATUS_FLOW"
  using indexOf_lower [of STATUS_FLOW s] by (simp add: STATUS_FLOW_def)

lemma indexOf_STATUS_FLOW:
  "indexOf STATUS_FLOW ''pending'' = 0"
  "indexOf STATUS_FLOW ''preparing'' = 1"
  "indexOf STATUS_FLOW ''ready'' = 2"
  "indexOf STATUS_FLOW ''fulfilled'' = 3"
  "indexOf STATUS_FLOW ''cancelled'' = -1"
  by (simp_all add: STATUS_FLOW_def)



text \<open>Past the guard: the update and the new dashboard, by the position of the status.\<close>

lemma advanceStatus_next:
  assumes "indexOf STATUS_FLOW (o_status (d_row ord)) = i" and "i < 3"
  shows "advanceStatus False now ord (st, ui) =
           Inr (st\<lparr>orders := map (\<lambda>r. if o_id r = o_id (d_row ord)
                                        then advanced_row now (STATUS_FLOW ! nat (i + 1)) r else r)
                                 (orders st)\<rparr>,
                ui\<lparr>d_orders := map (\<lambda>p. if o_id (d_row p) = o_id (d_row ord)
                                         then p\<lparr>d_row := (d_row p)\<lparr>o_status := STATUS_FLOW ! nat (i + 1)\<rparr>\<rparr>
                                         else p) (d_orders ui),
                   d_toast := Some (ToastAdvanced (o_id (d_row ord)) (STATUS_FLOW ! nat (i + 1)))\<rparr>)"
proof -
  have len: "int (length STATUS_FLOW) - 1 = 3" by (simp add: STATUS_FLOW_def)
  show ?thesis
    unfolding advanceStatus_def Let_def assms(1) len orders_update_eq_id_def advanced_row_def
    using assms(2) by simp
qed

lemma advanceStatus_last:
  assumes "indexOf STATUS_FLOW (o_status (d_row ord)) \<ge> 3"
  shows "advanceStatus u now ord w = Inr w"
proof -
  have len: "int (length STATUS_FLOW) - 1 = 3" by (simp add: STATUS_FLOW_def)
  show ?thesis
    unfolding advanceStatus_def Let_def len using assms by simp
qed

text \<open>
  When the store does not apply the update, the store is as it was and the dashboard
  shows the next status all the same.
\<close>

lemma advanceStatus_refused:
  assumes "indexOf STATUS_FLOW (o_status (d_row ord)) = i" and "i < 3"
  shows "advanceStatus True now ord (st, ui) =
           Inr (st,
                ui\<lparr>d_orders := map (\<lambda>p. if o_id (d_row p) = o_id (d_row ord)
                                         then p\<lparr>d_row := (d_row p)\<lparr>o_status := STATUS_FLOW ! nat (i + 1)\<rparr>\<rparr>
                                         else p) (d_orders ui),
                   d_toast := Some (ToastAdvanced (o_id (d_row ord)) (STATUS_FLOW ! nat (i + 1)))\<rparr>)"
proof -
  have len: "int (length STATUS_FLOW) - 1 = 3" by (simp add: STATUS_FLOW_def)
  show ?thesis
    unfolding advanceStatus_def Let_def assms(1) len
    using assms(2) by simp
qed

lemma advanceStatus_forward:
  assumes "s = ''pending'' \<or> s = ''preparing'' \<or> s = ''ready''" and "o_status (d_row ord) = s"
  shows "advanceStatus False now ord (st, ui) =
           Inr (st\<lparr>orders := map (\<lambda>r. if o_id r = o_id (d_row ord)
                                        then advanced_row now (chain_successor s) r else r)
                                 (orders st)\<rparr>,
                ui\<lparr>d_orders := map (\<lambda>p. if o_id (d_row p) = o_id (d_row ord)
                                         then p\<lparr>d_row := (d_row p)\<lparr>o_status := chain_successor s\<rparr>\<rparr>
                                         else p) (d_orders ui),
                   d_toast := Some (ToastAdvanced (o_id (d_row ord)) (chain_successor s))\<rparr>)"
proof -
  from assms(1) obtain i where i: "indexOf STATUS_FLOW s = i" "i < 3"
    and nxt: "STATUS_FLOW ! nat (i + 1) = chain_successor s"
    by (elim disjE) (simp_all add: indexOf_STATUS_FLOW, simp_all add: STATUS_FLOW_def)
  from advanceStatus_next [of ord i now st ui] i assms(2) nxt show ?thesis by simp
qed

lemma advanceStatus_fulfilled:
  "o_status (d_row ord) = ''fulfilled'' \<Longrightarrow> advanceStatus u now ord w = Inr w"
  by (rule advanceStatus_last) (simp add: indexOf_STATUS_FLOW)

lemmas example_defs =
  example_row_def example_order_def example_store_def example_dashboard_def

text \<open>
  C1 (as amended). For an order object whose status \<open>s\<close> is \<open>pending\<close>, \<open>preparing\<close> or
  \<open>ready\<close>, \<open>advanceStatus\<close>, when the store applies its update, gives every stored row
  with the order's id the successor of \<open>s\<close> in the chain (and the fulfilment time when
  the successor is \<open>fulfilled\<close>), leaves every other row and table as it was, and shows
  the successor on the dashboard. For an order object whose status is \<open>fulfilled\<close> it
  returns without reporting a failure and changes nothing, neither in the store nor on
  the dashboard.
\<close>

theorem advanceStatus_chain:
  assumes s: "o_status (d_row ord) = s"
  shows "(s \<in> {''pending'', ''preparing'', ''ready''} \<longrightarrow>
            advanceStatus False now ord (st, ui) =
              Inr (st\<lparr>orders := map (\<lambda>r. if o_id r = o_id (d_row ord)
                                           then advanced_row now (chain_successor s) r else r)
                                    (orders st)\<rparr>,
                   ui\<lparr>d_orders := map (\<lambda>p. if o_id (d_row p) = o_id (d_row ord)
                                            then p\<lparr>d_row := (d_row p)\<lparr>o_status := chain_successor s\<rparr>\<rparr>
                                            else p) (d_orders ui),
                      d_toast := Some (ToastAdvanced (o_id (d_row ord)) (chain_successor s))\<rparr>)) \<and>
         (s = ''fulfilled'' \<longrightarrow> advanceStatus u now ord (st, ui) = Inr (st, ui))"
proof (intro conjI impI)
  assume "s \<in> {''pending'', ''preparing'', ''ready''}"
  then have "s = ''pending'' \<or> s = ''preparing'' \<or> s = ''ready''" by blast
  then show "advanceStatus False now ord (st, ui) =
              Inr (st\<lparr>orders := map (\<lambda>r. if o_id r = o_id (d_row ord)
                                           then advanced_row now (chain_successor s) r else r)
                                    (orders st)\<rparr>,
                   ui\<lparr>d_orders := map (\<lambda>p. if o_id (d_row p) = o_id (d_row ord)
                                            then p\<lparr>d_row := (d_row p)\<lparr>o_status := chain_successor s\<rparr>\<rparr>
                                            else p) (d_orders ui),
                      d_toast := Some (ToastAdvanced (o_id (d_row ord)) (chain_successor s))\<rparr>)"
    using s by (rule advanceStatus_forward)
next
  assume "s = ''fulfilled''"
  with s have "o_status (d_row ord) = ''fulfilled''" by simp
  then show "advanceStatus u now ord (st, ui) = Inr (st, ui)"
    by (rule advanceStatus_fulfilled)
qed

text \<open>
  The theorem at the order \<open>o1\<close>: from \<open>ready\<close> at time 7 it becomes \<open>fulfilled\<close> with
  fulfilment time 7; a second call on the fulfilled order changes nothing.
\<close>

theorem advanceStatus_chain_witness:
  "advanceStatus False 7 (example_order ''ready'' None)
       (example_store ''ready'' None, example_dashboard ''ready'' None None) =
     Inr (example_store ''fulfilled'' (Some 7),
          example_dashboard ''fulfilled'' None (Some (ToastAdvanced ''o1'' ''fulfilled''))) \<and>
   advanceStatus False 9 (example_order ''fulfilled'' (Some 7))
       (example_store ''fulfilled'' (Some 7), example_dashboard ''fulfilled'' (Some 7) None) =
     Inr (example_store ''fulfilled'' (Some 7), example_dashboard ''fulfilled'' (Some 7) None)"
proof -
  have ready: "o_status (d_row (example_order ''ready'' None)) = ''ready''"
    by (simp add: example_defs)
  have fin: "o_status (d_row (example_order ''fulfilled'' (Some 7))) = ''fulfilled''"
    by (simp add: example_defs)
  have m: "''ready'' \<in> {''pending'', ''preparing'', ''ready''}" by simp
  from advanceStatus_chain [OF ready, of 7 "example_store ''ready'' None"
      "example_dashboard ''ready'' None None"] m
  have "advanceStatus False 7 (example_order ''ready'' None)
       (example_store ''ready'' None, example_dashboard ''ready'' None None) =
     Inr (example_store ''fulfilled'' (Some 7),
          example_dashboard ''fulfilled'' None (Some (ToastAdvanced ''o1'' ''fulfilled'')))"
    by (simp add: example_defs advanced_row_def)
  moreover from advanceStatus_chain [OF fin, where now = 9 and u = False
      and st = "example_store ''fulfilled'' (Some 7)"
      and ui = "example_dashboard ''fulfilled'' (Some 7) None"]
  have "advanceStatus False 9 (example_order ''fulfilled'' (Some 7))
       (example_store ''fulfilled'' (Some 7), example_dashboard ''fulfilled'' (Some 7) None) =
     Inr (example_store ''fulfilled'' (Some 7), example_dashboard ''fulfilled'' (Some 7) None)"
    by simp
  ultimately show ?thesis by simp
qed

text \<open>
  The claim as stated (from \<open>fulfilled\<close> or \<open>cancelled\<close> the call fails with
  InvalidTransitionError and leaves the row unchanged) fails twice. The status
  \<open>cancelled\<close> is not in \<open>STATUS_FLOW\<close>, its position is \<open>-1\<close>, the guard lets it
  pass and the stored row is written with the status at position \<open>0\<close>: the cancelled
  order becomes \<open>pending\<close>. And on the fulfilled order the call returns normally, with
  no failure reported.
\<close>

theorem advanceStatus_terminal_counterexample:
  "advanceStatus False 7 (example_order ''cancelled'' None)
       (example_store ''cancelled'' None, example_dashboard ''cancelled'' None None) =
     Inr (example_store ''pending'' None,
          example_dashboard ''pending'' None (Some (ToastAdvanced ''o1'' ''pending''))) \<and>
   example_store ''pending'' None \<noteq> example_store ''cancelled'' None \<and>
   advanceStatus False 9 (example_order ''fulfilled'' (Some 7))
       (example_store ''fulfilled'' (Some 7), example_dashboard ''fulfilled'' (Some 7) None)
     \<noteq> Inl InvalidTransitionError"
proof (intro conjI)
  have idx: "indexOf STATUS_FLOW (o_status (d_row (example_order ''cancelled'' None))) = -1"
    by (simp add: example_defs indexOf_STATUS_FLOW)
  from advanceStatus_next [OF idx, of 7 "example_store ''cancelled'' None"
      "example_dashboard ''cancelled'' None None"]
  show "advanceStatus False 7 (example_order ''cancelled'' None)
       (example_store ''cancelled'' None, example_dashboard ''cancelled'' None None) =
     Inr (example_store ''pending'' None,
          example_dashboard ''pending'' None (Some (ToastAdvanced ''o1'' ''pending'')))"
    by (simp add: example_defs advanced_row_def STATUS_FLOW_def)
next
  show "example_store ''pending'' None \<noteq> example_store ''cancelled'' None"
    by (simp add: example_defs)
next
  have "advanceStatus False 9 (example_order ''fulfilled'' (Some 7))
       (example_store ''fulfilled'' (Some 7), example_dashboard ''fulfilled'' (Some 7) None) =
     Inr (example_store ''fulfilled'' (Some 7), example_dashboard ''fulfilled'' (Some 7) None)"
    by (rule advanceStatus_fulfilled) (simp add: example_defs)
  then show "advanceStatus False 9 (example_order ''fulfilled'' (Some 7))
       (example_store ''fulfilled'' (Some 7), example_dashboard ''fulfilled'' (Some 7) None)
     \<noteq> Inl InvalidTransitionError"
    by simp
qed








subsection \<open>The fulfilment time, from intake to the last transition\<close>

text \<open>The intake of the example cart, evaluated.\<close>

lemma trim_Jamie: "trim (js '' Jamie '') = js ''Jamie''"
  by (simp add: trim_def js_def is_space_def)

lemma js_Jamie_ne: "js ''Jamie'' \<noteq> []"
  by (simp add: js_def)

lemma trim_Jamie_ne: "trim (js '' Jamie '') \<noteq> []"
  unfolding trim_Jamie by (rule js_Jamie_ne)

lemma trim_empty: "trim [] = []"
  by (simp add: trim_def)

lemma example_cartItems: "cartItems example_products example_cart = example_products"
  by (simp add: cartItems_def example_products_def example_cart_def in_cart_def)

lemma example_cartTotal: "cartTotal example_number example_products example_cart = 1200"
  by (simp add: cartTotal_def example_cartItems)
     (simp add: example_products_def example_cart_def example_number_def quantity_of_def)

lemma example_line_items:
  "line_items (example_env a b) ''o2'' example_products example_cart = example_items"
  by (simp add: line_items_def example_cartItems)
     (simp add: example_products_def example_cart_def example_env_def quantity_of_def
        example_items_def)

lemma example_env_simps:
  "e_order_id (example_env a b) = ''o2''"
  "e_now (example_env a b) = 3"
  "e_order_insert_error (example_env a b) = a"
  "e_items_insert_error (example_env a b) = b"
  by (simp_all add: example_env_def)

lemma example_submitOrder:
  "submitOrder (example_env False False) example_number ''b1'' example_products example_cart
     (js '' Jamie '') [] (example_store ''ready'' None) =
   (Inr ''o2'', \<lparr>orders = [example_row ''ready'' None, example_new_row],
                 order_items = example_items, push_subscriptions = []\<rparr>)"
  by (simp add: submitOrder_def js_Jamie_ne trim_Jamie trim_empty example_cartItems
        example_cartTotal orders_insert_def order_items_insert_def Let_def example_env_simps
        example_line_items)
     (simp add: example_products_def example_store_def example_new_row_def example_number_def)






section \<open>Properties of order intake\<close>

lemma dropWhile_all_or_stop:
  "(\<forall>x \<in> set (dropWhile P xs). P x) \<longleftrightarrow> (\<forall>x \<in> set xs. P x)"
proof
  assume all: "\<forall>x \<in> set (dropWhile P xs). P x"
  have "dropWhile P xs = []"
  proof (rule ccontr)
    assume ne: "dropWhile P xs \<noteq> []"
    then have "\<not> P (hd (dropWhile P xs))" by (rule hd_dropWhile)
    moreover from ne have "hd (dropWhile P xs) \<in> set (dropWhile P xs)" by simp
    ultimately show False using all by blast
  qed
  then show "\<forall>x \<in> set xs. P x" by simp
next
  assume "\<forall>x \<in> set xs. P x"
  then show "\<forall>x \<in> set (dropWhile P xs). P x" by (blast dest: set_dropWhileD)
qed

lemma trim_Nil_iff: "trim s = [] \<longleftrightarrow> (\<forall>ch \<in> set s. is_space ch)"
proof -
  have "trim s = [] \<longleftrightarrow> dropWhile is_space (rev (dropWhile is_space s)) = []"
    by (simp add: trim_def)
  also have "\<dots> \<longleftrightarrow> (\<forall>x \<in> set (dropWhile is_space s). is_space x)"
    by simp
  also have "\<dots> \<longleftrightarrow> (\<forall>x \<in> set s. is_space x)"
    by (rule dropWhile_all_or_stop)
  finally show ?thesis .
qed

lemma addToCart_in_cart: "in_cart (addToCart (p_id p) c) p"
  by (simp add: addToCart_def in_cart_def)

lemma removeFromCart_last: "c (p_id p) = Some 1 \<Longrightarrow> \<not> in_cart (removeFromCart (p_id p) c) p"
  by (simp add: removeFromCart_def in_cart_def)

lemma cartItems_empty_cart: "cartItems products Map.empty = []"
  by (simp add: cartItems_def in_cart_def)

lemma submitOrder_blank_name:
  "trim customerName = [] \<Longrightarrow>
   submitOrder env ar b products c customerName customerNote st =
     (Inl (ValidationError name_alert), st)"
  by (simp add: submitOrder_def)

lemma submitOrder_no_items:
  "trim customerName \<noteq> [] \<Longrightarrow> cartItems products c = [] \<Longrightarrow>
   submitOrder env ar b products c customerName customerNote st =
     (Inl (ValidationError cart_alert), st)"
  by (simp add: submitOrder_def)

text \<open>
  C5. A call of \<open>submitOrder\<close> with an empty cart, or with a customer name that is empty
  or all white space, ends in one of the two validation alerts, and the store it leaves
  is the store it found: no order row and no line item is inserted.
\<close>

theorem submitOrder_validation:
  assumes "(\<forall>ch \<in> set customerName. is_space ch) \<or> c = Map.empty"
  shows "submitOrder env ar b products c customerName customerNote st \<in>
           {(Inl (ValidationError name_alert), st), (Inl (ValidationError cart_alert), st)}"
proof (cases "trim customerName = []")
  case True
  then show ?thesis by (simp add: submitOrder_blank_name)
next
  case False
  then have "\<not> (\<forall>ch \<in> set customerName. is_space ch)" by (simp add: trim_Nil_iff)
  with assms have "c = Map.empty" by blast
  then have "cartItems products c = []" by (simp add: cartItems_empty_cart)
  with False show ?thesis by (simp add: submitOrder_no_items)
qed

text \<open>
  The theorem at a name of a no-break space and a space with the example cart, and at
  the name \<open>Jamie\<close> with an empty cart, on a store that holds one order.
\<close>

theorem submitOrder_validation_witness:
  "submitOrder (example_env False False) example_number ''b1'' example_products example_cart
     [0xA0, 0x20] [] (example_store ''ready'' None) =
     (Inl (ValidationError name_alert), example_store ''ready'' None) \<and>
   submitOrder (example_env False False) example_number ''b1'' example_products Map.empty
     (js ''Jamie'') [] (example_store ''ready'' None) =
     (Inl (ValidationError cart_alert), example_store ''ready'' None)"
proof -
  have blank: "(\<forall>ch \<in> set [0xA0, 0x20]. is_space ch) \<or> example_cart = Map.empty"
    by (simp add: is_space_def)
  have no_cart: "(\<forall>ch \<in> set (js ''Jamie''). is_space ch) \<or> (Map.empty :: cart) = Map.empty"
    by simp
  have alerts: "name_alert \<noteq> cart_alert"
    by (simp add: name_alert_def cart_alert_def)
  have t1: "trim [0xA0, 0x20] = []" by (simp add: trim_def is_space_def)
  have t2: "trim (js ''Jamie'') \<noteq> []" by (simp add: trim_def js_def is_space_def)
  have first: "fst (submitOrder (example_env False False) example_number ''b1'' example_products
      example_cart [0xA0, 0x20] [] (example_store ''ready'' None)) \<noteq> Inl (ValidationError cart_alert)"
    using alerts by (simp add: submitOrder_def t1)
  have second: "fst (submitOrder (example_env False False) example_number ''b1'' example_products
      Map.empty (js ''Jamie'') [] (example_store ''ready'' None)) \<noteq> Inl (ValidationError name_alert)"
    using alerts by (simp add: submitOrder_def t2 cartItems_empty_cart)
  from submitOrder_validation [OF blank, of "example_env False False" example_number "''b1''"
      example_products "[]" "example_store ''ready'' None"] first
  have a: "submitOrder (example_env False False) example_number ''b1'' example_products example_cart
     [0xA0, 0x20] [] (example_store ''ready'' None) =
     (Inl (ValidationError name_alert), example_store ''ready'' None)"
    by auto
  from submitOrder_validation [OF no_cart, of "example_env False False" example_number "''b1''"
      example_products "[]" "example_store ''ready'' None"] second
  have b: "submitOrder (example_env False False) example_number ''b1'' example_products Map.empty
     (js ''Jamie'') [] (example_store ''ready'' None) =
     (Inl (ValidationError cart_alert), example_store ''ready'' None)"
    by auto
  from a b show ?thesis by simp
qed

lemma line_items_Nil_iff: "line_items env oid products c = [] \<longleftrightarrow> cartItems products c = []"
proof -
  have "length (line_items env oid products c) = length (cartItems products c)"
    by (simp add: line_items_def)
  then show ?thesis by (metis length_0_conv)
qed

lemma submitOrder_Inr:
  assumes "submitOrder env ar b products c customerName customerNote st = (Inr oid, st')"
  shows "trim customerName \<noteq> []" and "cartItems products c \<noteq> []"
    and "\<not> e_order_insert_error env" and "\<not> e_items_insert_error env"
    and "oid = e_order_id env"
    and "\<exists>r. orders st' = orders st @ [r] \<and> o_id r = oid"
    and "order_items st' = order_items st @ line_items env oid products c"
  using assms
  by (auto simp: submitOrder_def orders_insert_def order_items_insert_def Let_def
      split: if_splits option.splits)

lemma submitOrder_order_error:
  assumes "trim customerName \<noteq> []" and "cartItems products c \<noteq> []"
    and "e_order_insert_error env"
  shows "submitOrder env ar b products c customerName customerNote st =
           (Inl (PersistenceError failed_alert), st)"
  using assms by (simp add: submitOrder_def orders_insert_def)

lemma submitOrder_items_error:
  assumes "trim customerName \<noteq> []" and "cartItems products c \<noteq> []"
    and "\<not> e_order_insert_error env" and "e_items_insert_error env"
  shows "\<exists>r. o_id r = e_order_id env \<and>
           submitOrder env ar b products c customerName customerNote st =
             (Inl (PersistenceError failed_alert), st\<lparr>orders := orders st @ [r]\<rparr>)"
proof -
  define r where "r = \<lparr>o_id = e_order_id env, o_business_id = b,
      o_customer_name = trim customerName,
      o_customer_note = (if trim customerNote = [] then None else Some (trim customerNote)),
      o_status = ''pending'', o_total = num_toFixed2 ar (cartTotal ar products c),
      o_created_at = e_now env, o_fulfilled_at = None\<rparr>"
  have "o_id r = e_order_id env" by (simp add: r_def)
  moreover from assms
  have "submitOrder env ar b products c customerName customerNote st =
          (Inl (PersistenceError failed_alert), st\<lparr>orders := orders st @ [r]\<rparr>)"
    by (simp add: submitOrder_def orders_insert_def order_items_insert_def Let_def r_def)
  ultimately show ?thesis by blast
qed

text \<open>
  C6. \<open>submitOrder\<close> reaches the confirmation only when the store accepted both
  inserts, and then the order row and every line item of the cart are in the store. When
  the name and the cart pass the checks and the store rejects the order insert, the call
  ends in the failure alert and the store is unchanged; when the store accepts the order
  and rejects the line items, the call ends in the failure alert too, with the order row
  stored and no line item: a partly stored order is never confirmed.
\<close>

theorem submitOrder_success_needs_persistence:
  "(submitOrder env ar b products c customerName customerNote st = (Inr oid, st') \<longrightarrow>
      \<not> e_order_insert_error env \<and> \<not> e_items_insert_error env \<and>
      (\<exists>r. orders st' = orders st @ [r] \<and> o_id r = oid) \<and>
      order_items st' = order_items st @ line_items env oid products c \<and>
      line_items env oid products c \<noteq> []) \<and>
   (trim customerName \<noteq> [] \<and> cartItems products c \<noteq> [] \<and> e_order_insert_error env \<longrightarrow>
      submitOrder env ar b products c customerName customerNote st =
        (Inl (PersistenceError failed_alert), st)) \<and>
   (trim customerName \<noteq> [] \<and> cartItems products c \<noteq> [] \<and>
    \<not> e_order_insert_error env \<and> e_items_insert_error env \<longrightarrow>
      (\<exists>r. o_id r = e_order_id env \<and>
         submitOrder env ar b products c customerName customerNote st =
           (Inl (PersistenceError failed_alert), st\<lparr>orders := orders st @ [r]\<rparr>)))"
proof (intro conjI impI)
  assume ok: "submitOrder env ar b products c customerName customerNote st = (Inr oid, st')"
  from ok show "\<not> e_order_insert_error env" by (rule submitOrder_Inr)
  from ok show "\<not> e_items_insert_error env" by (rule submitOrder_Inr)
  from ok show "\<exists>r. orders st' = orders st @ [r] \<and> o_id r = oid" by (rule submitOrder_Inr)
  from ok show "order_items st' = order_items st @ line_items env oid products c"
    by (rule submitOrder_Inr)
  from ok have "cartItems products c \<noteq> []" by (rule submitOrder_Inr)
  then show "line_items env oid products c \<noteq> []" by (simp add: line_items_Nil_iff)
next
  assume "trim customerName \<noteq> [] \<and> cartItems products c \<noteq> [] \<and> e_order_insert_error env"
  then show "submitOrder env ar b products c customerName customerNote st =
        (Inl (PersistenceError failed_alert), st)"
    by (simp add: submitOrder_order_error)
next
  assume "trim customerName \<noteq> [] \<and> cartItems products c \<noteq> [] \<and>
    \<not> e_order_insert_error env \<and> e_items_insert_error env"
  then show "\<exists>r. o_id r = e_order_id env \<and>
         submitOrder env ar b products c customerName customerNote st =
           (Inl (PersistenceError failed_alert), st\<lparr>orders := orders st @ [r]\<rparr>)"
    by (intro submitOrder_items_error) simp_all
qed

text \<open>
  The theorem at the example cart of \<open>Jamie\<close>: with a store that accepts both inserts, one
  that rejects the order, and one that accepts the order and rejects the line items.
\<close>

theorem submitOrder_success_needs_persistence_witness:
  "submitOrder (example_env False False) example_number ''b1'' example_products example_cart
     (js '' Jamie '') [] (example_store ''ready'' None) =
     (Inr ''o2'', \<lparr>orders = [example_row ''ready'' None, example_new_row],
                   order_items = example_items, push_subscriptions = []\<rparr>) \<and>
   line_items (example_env False False) ''o2'' example_products example_cart \<noteq> [] \<and>
   submitOrder (example_env True False) example_number ''b1'' example_products example_cart
     (js '' Jamie '') [] (example_store ''ready'' None) =
     (Inl (PersistenceError failed_alert), example_store ''ready'' None) \<and>
   (\<exists>r. o_id r = ''o2'' \<and>
      submitOrder (example_env False True) example_number ''b1'' example_products example_cart
        (js '' Jamie '') [] (example_store ''ready'' None) =
        (Inl (PersistenceError failed_alert),
         \<lparr>orders = [example_row ''ready'' None, r], order_items = [], push_subscriptions = []\<rparr>))"
proof -
  have name: "trim (js '' Jamie '') \<noteq> []" by (rule trim_Jamie_ne)
  have items: "cartItems example_products example_cart \<noteq> []"
    unfolding example_cartItems by (simp add: example_products_def)
  note ok = submitOrder_success_needs_persistence [of "example_env False False" example_number
      "''b1''" example_products example_cart "js '' Jamie ''" "[]" "example_store ''ready'' None"
      "''o2''" "\<lparr>orders = [example_row ''ready'' None, example_new_row],
                   order_items = example_items, push_subscriptions = []\<rparr>"]
  from ok example_submitOrder
  have a: "line_items (example_env False False) ''o2'' example_products example_cart \<noteq> []"
    by blast
  note rejected = submitOrder_success_needs_persistence [of "example_env True False"
      example_number "''b1''" example_products example_cart "js '' Jamie ''" "[]"
      "example_store ''ready'' None"]
  from rejected name items
  have b: "submitOrder (example_env True False) example_number ''b1'' example_products example_cart
     (js '' Jamie '') [] (example_store ''ready'' None) =
     (Inl (PersistenceError failed_alert), example_store ''ready'' None)"
    by (simp add: example_env_simps)
  note partial = submitOrder_success_needs_persistence [of "example_env False True"
      example_number "''b1''" example_products example_cart "js '' Jamie ''" "[]"
      "example_store ''ready'' None"]
  from partial name items
  have c: "\<exists>r. o_id r = ''o2'' \<and>
      submitOrder (example_env False True) example_number ''b1'' example_products example_cart
        (js '' Jamie '') [] (example_store ''ready'' None) =
        (Inl (PersistenceError failed_alert),
         \<lparr>orders = [example_row ''ready'' None, r], order_items = [], push_subscriptions = []\<rparr>)"
    by (simp add: example_env_simps example_store_def)
  from example_submitOrder a b c show ?thesis by blast
qed

text \<open>
  The total of a stored order, whatever the arithmetic of the numbers is: it is
  \<^verbatim>\<open>toFixed(2)\<close> of the sum, taken from the left with the numbers' own \<open>+\<close> and \<open>*\<close>,
  of price times quantity over the line items stored with the order. How that sum of
  doubles relates to the exact sum of the decimal prices is not expressed here.
\<close>

lemma foldl_enumerate:
  assumes "\<And>k p. g (h k p) = g (h 0 p)"
  shows "foldl (\<lambda>s i. F s (g i)) z (map (\<lambda>(k, p). h k p) (enumerate n xs)) =
         foldl (\<lambda>s p. F s (g (h 0 p))) z xs"
  using assms
proof (induction xs arbitrary: n z)
  case Nil
  then show ?case by simp
next
  case (Cons x xs)
  from Cons.prems have "g (h n x) = g (h 0 x)" by blast
  with Cons.IH [OF Cons.prems] show ?case by simp
qed

lemma submitOrder_total_shape:
  assumes "submitOrder env ar b products c customerName customerNote st = (Inr oid, st')"
  shows "o_total (last (orders st')) =
           num_toFixed2 ar
             (foldl (\<lambda>s i. num_add ar s (num_mul ar (i_price i) (i_quantity i)))
                (num_zero ar) (line_items env oid products c))"
proof -
  from assms have total: "o_total (last (orders st')) = num_toFixed2 ar (cartTotal ar products c)"
    by (auto simp: submitOrder_def orders_insert_def order_items_insert_def Let_def
        split: if_splits option.splits)
  have "foldl (\<lambda>s i. num_add ar s (num_mul ar (i_price i) (i_quantity i)))
          (num_zero ar) (line_items env oid products c) =
        foldl (\<lambda>s p. num_add ar s (num_mul ar (p_price p) (quantity_of c p)))
          (num_zero ar) (cartItems products c)"
    unfolding line_items_def
    using foldl_enumerate [where F = "\<lambda>s (x, q). num_add ar s (num_mul ar x q)"
        and g = "\<lambda>i. (i_price i, i_quantity i)"
        and h = "\<lambda>k p. \<lparr>i_id = e_item_id env k, i_order_id = oid, i_product_id = Some (p_id p),
                     i_name = p_name p, i_price = p_price p, i_quantity = quantity_of c p\<rparr>"
        and n = 0 and xs = "cartItems products c" and z = "num_zero ar"]
    by simp
  with total show ?thesis by (simp add: cartTotal_def)
qed

text \<open>
  With exact arithmetic on amounts of two decimals the stored total is the sum of price
  times quantity over the line items stored with the order; rounding to two decimals
  changes nothing there.
\<close>

lemma foldl_add_sum_list:
  "foldl (\<lambda>s i. s + f i) z xs = z + sum_list (map f xs)" for z :: rat
  by (induction xs arbitrary: z) (simp_all add: add.assoc)

lemma two_decimals_iff: "two_decimals x \<longleftrightarrow> (\<exists>k::int. x * 100 = of_int k)"
  unfolding two_decimals_def by (metis floor_of_int)

lemma two_decimals_sum:
  assumes "\<forall>i \<in> set xs. two_decimals (f i)"
  shows "two_decimals (sum_list (map f xs))"
  using assms
proof (induction xs)
  case Nil
  show ?case by (simp add: two_decimals_def)
next
  case (Cons x xs)
  then obtain k l :: int where "f x * 100 = of_int k" and "sum_list (map f xs) * 100 = of_int l"
    unfolding two_decimals_iff by auto
  then have "(f x + sum_list (map f xs)) * 100 = of_int (k + l)"
    by (simp add: distrib_right)
  then have "\<exists>m::int. sum_list (map f (x # xs)) * 100 = of_int m"
    unfolding list.map sum_list.Cons by (rule exI)
  then show ?case unfolding two_decimals_iff .
qed

lemma two_decimals_times:
  assumes "two_decimals x"
  shows "two_decimals (x * of_nat q)"
proof -
  from assms obtain k :: int where "x * 100 = of_int k" unfolding two_decimals_iff by auto
  then have "x * of_nat q * 100 = of_int (k * int q)" by (simp add: mult.assoc mult.left_commute mult.commute)
  then show ?thesis unfolding two_decimals_iff by blast
qed

lemma toFixed2_exact:
  assumes "two_decimals x"
  shows "num_toFixed2 exact_number x = x"
proof -
  from assms obtain k :: int where k: "x * 100 = of_int k" unfolding two_decimals_iff by auto
  have "\<lfloor>(of_int k :: rat) + 1 / 2\<rfloor> = k" by linarith
  with k have "of_int \<lfloor>x * 100 + 1 / 2\<rfloor> / 100 = x" by simp
  then show ?thesis by (simp add: exact_number_def)
qed

lemma submitOrder_total_exact:
  assumes ok: "submitOrder env exact_number b products c customerName customerNote st = (Inr oid, st')"
    and prices: "\<forall>p \<in> set products. two_decimals (p_price p)"
  shows "o_total (last (orders st')) =
           (\<Sum>i \<leftarrow> line_items env oid products c. i_price i * of_nat (i_quantity i))"
proof -
  have items: "\<forall>i \<in> set (line_items env oid products c). two_decimals (i_price i * of_nat (i_quantity i))"
  proof
    fix i assume "i \<in> set (line_items env oid products c)"
    then obtain k p where "(k, p) \<in> set (enumerate 0 (cartItems products c))"
      and i: "i_price i = p_price p"
      by (auto simp: line_items_def)
    then have "p \<in> set (cartItems products c)" by (auto simp: in_set_enumerate_eq)
    then have "p \<in> set products" by (simp add: cartItems_def)
    with prices have "two_decimals (p_price p)" by blast
    with i show "two_decimals (i_price i * of_nat (i_quantity i))"
      by (simp add: two_decimals_times)
  qed
  have "o_total (last (orders st')) =
          num_toFixed2 exact_number
            (foldl (\<lambda>s i. s + i_price i * of_nat (i_quantity i)) 0
               (line_items env oid products c))"
    using submitOrder_total_shape [OF ok] by (simp add: exact_number_def)
  also have "\<dots> = num_toFixed2 exact_number
      (\<Sum>i \<leftarrow> line_items env oid products c. i_price i * of_nat (i_quantity i))"
    by (simp add: foldl_add_sum_list)
  also have "\<dots> = (\<Sum>i \<leftarrow> line_items env oid products c. i_price i * of_nat (i_quantity i))"
    using items by (intro toFixed2_exact two_decimals_sum)
  finally show ?thesis .
qed

section \<open>Properties of the live order events\<close>

lemma on_UPDATE_idempotent: "on_UPDATE n (on_UPDATE n ui) = on_UPDATE n ui"
proof -
  have "map (\<lambda>p. if o_id (d_row p) = o_id n then p\<lparr>d_row := n\<rparr> else p)
          (map (\<lambda>p. if o_id (d_row p) = o_id n then p\<lparr>d_row := n\<rparr> else p) xs) =
        map (\<lambda>p. if o_id (d_row p) = o_id n then p\<lparr>d_row := n\<rparr> else p) xs"
    for xs :: "'a dash_order list"
    by (induction xs) simp_all
  then show ?thesis by (simp add: on_UPDATE_def)
qed

lemma on_UPDATE_ids:
  "map (\<lambda>p. o_id (d_row p)) (d_orders (on_UPDATE n ui)) = map (\<lambda>p. o_id (d_row p)) (d_orders ui)"
proof -
  have "map (\<lambda>p. o_id (d_row p))
          (map (\<lambda>p. if o_id (d_row p) = o_id n then p\<lparr>d_row := n\<rparr> else p) xs) =
        map (\<lambda>p. o_id (d_row p)) xs"
    for xs :: "'a dash_order list"
    by (induction xs) simp_all
  then show ?thesis by (simp add: on_UPDATE_def)
qed

text \<open>
  C7 (as amended). An \<open>UPDATE\<close> event is applied as an idempotent merge keyed by the
  order's id: applying the same event twice leaves the dashboard as applying it once, and
  it leaves the ids of the list as they were, entry by entry (so it adds no entry and no
  second entry with an id). An \<open>INSERT\<close> event is applied as an addition: when the
  order can be fetched it is put in front of the list, whatever the list holds already;
  when it cannot, the dashboard stays as it was.
\<close>

theorem order_events_applied:
  "on_UPDATE n (on_UPDATE n ui) = on_UPDATE n ui \<and>
   map (\<lambda>p. o_id (d_row p)) (d_orders (on_UPDATE n ui)) = map (\<lambda>p. o_id (d_row p)) (d_orders ui) \<and>
   (orders_select_single (o_id n) st = Some data \<longrightarrow>
      d_orders (on_INSERT n st ui) = data # d_orders ui) \<and>
   (orders_select_single (o_id n) st = None \<longrightarrow> on_INSERT n st ui = ui)"
proof (intro conjI impI)
  show "on_UPDATE n (on_UPDATE n ui) = on_UPDATE n ui"
    by (rule on_UPDATE_idempotent)
  show "map (\<lambda>p. o_id (d_row p)) (d_orders (on_UPDATE n ui)) = map (\<lambda>p. o_id (d_row p)) (d_orders ui)"
    by (rule on_UPDATE_ids)
next
  assume "orders_select_single (o_id n) st = Some data"
  then show "d_orders (on_INSERT n st ui) = data # d_orders ui"
    by (simp add: on_INSERT_def)
next
  assume "orders_select_single (o_id n) st = None"
  then show "on_INSERT n st ui = ui"
    by (simp add: on_INSERT_def)
qed

lemma example_select:
  "orders_select_single ''o1'' (example_store s f) = Some (example_order s f)"
  by (simp add: orders_select_single_def example_defs)

lemma example_select_missing:
  "orders_select_single ''o9'' (example_store s f) = None"
  by (simp add: orders_select_single_def example_defs)

text \<open>
  The theorem at the order \<open>o1\<close>: an update to \<open>preparing\<close> applied twice to a dashboard
  that shows it as \<open>pending\<close>, its insert event on an empty dashboard, and the insert event
  of an order the store does not hold.
\<close>

theorem order_events_applied_witness:
  "on_UPDATE (example_row ''preparing'' None)
     (on_UPDATE (example_row ''preparing'' None) (example_dashboard ''pending'' None None)) =
     example_dashboard ''preparing'' None None \<and>
   d_orders (on_INSERT (example_row ''pending'' None) (example_store ''pending'' None)
               \<lparr>d_orders = [], d_toast = None\<rparr>) = [example_order ''pending'' None] \<and>
   on_INSERT ((example_row ''pending'' None)\<lparr>o_id := ''o9''\<rparr>) (example_store ''pending'' None)
     \<lparr>d_orders = [], d_toast = None\<rparr> = \<lparr>d_orders = [], d_toast = None\<rparr>"
proof -
  have once: "on_UPDATE (example_row ''preparing'' None) (example_dashboard ''pending'' None None) =
      example_dashboard ''preparing'' None None"
    by (simp add: on_UPDATE_def example_defs)
  have found: "orders_select_single (o_id (example_row ''pending'' None))
      (example_store ''pending'' None) = Some (example_order ''pending'' None)"
    using example_select [of "''pending''" None] by (simp add: example_row_def)
  have missing: "orders_select_single (o_id ((example_row ''pending'' None)\<lparr>o_id := ''o9''\<rparr>))
      (example_store ''pending'' None) = None"
    using example_select_missing [of "''pending''" None] by simp
  from order_events_applied [of "example_row ''preparing'' None"
      "example_dashboard ''pending'' None None"] once
  have a: "on_UPDATE (example_row ''preparing'' None)
     (on_UPDATE (example_row ''preparing'' None) (example_dashboard ''pending'' None None)) =
     example_dashboard ''preparing'' None None"
    by simp
  from order_events_applied [of "example_row ''pending'' None" "\<lparr>d_orders = [], d_toast = None\<rparr>"
      "example_store ''pending'' None" "example_order ''pending'' None"] found
  have b: "d_orders (on_INSERT (example_row ''pending'' None) (example_store ''pending'' None)
               \<lparr>d_orders = [], d_toast = None\<rparr>) = [example_order ''pending'' None]"
    by simp
  from order_events_applied [of "(example_row ''pending'' None)\<lparr>o_id := ''o9''\<rparr>"
      "\<lparr>d_orders = [], d_toast = None\<rparr>" "example_store ''pending'' None"] missing
  have c: "on_INSERT ((example_row ''pending'' None)\<lparr>o_id := ''o9''\<rparr>) (example_store ''pending'' None)
     \<lparr>d_orders = [], d_toast = None\<rparr> = \<lparr>d_orders = [], d_toast = None\<rparr>"
    by simp
  from a b c show ?thesis by simp
qed

text \<open>
  The claim as stated fails for insert events. The same \<open>INSERT\<close> event for \<open>o1\<close>
  applied twice to an empty dashboard gives a list with two entries for \<open>o1\<close>, which is
  not the list one application gives.
\<close>

theorem on_INSERT_twice_counterexample:
  "d_orders (on_INSERT (example_row ''pending'' None) (example_store ''pending'' None)
      (on_INSERT (example_row ''pending'' None) (example_store ''pending'' None)
         \<lparr>d_orders = [], d_toast = None\<rparr>)) =
     [example_order ''pending'' None, example_order ''pending'' None] \<and>
   d_orders (on_INSERT (example_row ''pending'' None) (example_store ''pending'' None)
      \<lparr>d_orders = [], d_toast = None\<rparr>) = [example_order ''pending'' None] \<and>
   \<not> distinct (map (\<lambda>p. o_id (d_row p))
        (d_orders (on_INSERT (example_row ''pending'' None) (example_store ''pending'' None)
           (on_INSERT (example_row ''pending'' None) (example_store ''pending'' None)
              \<lparr>d_orders = [], d_toast = None\<rparr>))))"
proof -
  have sel: "orders_select_single (o_id (example_row ''pending'' None))
      (example_store ''pending'' None) = Some (example_order ''pending'' None)"
    using example_select [of "''pending''" None] by (simp add: example_row_def)
  have once: "d_orders (on_INSERT (example_row ''pending'' None) (example_store ''pending'' None)
      \<lparr>d_orders = [], d_toast = None\<rparr>) = [example_order ''pending'' None]"
    by (simp add: on_INSERT_def sel)
  have twice: "d_orders (on_INSERT (example_row ''pending'' None) (example_store ''pending'' None)
      (on_INSERT (example_row ''pending'' None) (example_store ''pending'' None)
         \<lparr>d_orders = [], d_toast = None\<rparr>)) =
     [example_order ''pending'' None, example_order ''pending'' None]"
    by (simp add: on_INSERT_def sel)
  from once twice show ?thesis by simp
qed

lemma js_inj: "js a = js b \<Longrightarrow> a = b"
  by (simp add: js_def inj_map_eq_map [OF inj_of_char])

text \<open>
  C8. A dashboard session of business \<open>b\<close> receives a change only through one of its
  two listeners, both filtered on \<open>business_id = b\<close>: every insert or update event the
  feed delivers to it is for an order row whose business is \<open>b\<close>.
\<close>

theorem session_receives_own_business:
  assumes "session_receives b c"
  shows "o_business_id (c_new c) = b"
proof -
  from assms obtain l where l: "l \<in> set (dashboard_listeners b)" and d: "feed_delivers l c"
    by (auto simp: session_receives_def list_ex_iff)
  from l have "l_filter_column l = ''business_id''" and "l_filter_value l = b"
    by (auto simp: dashboard_listeners_def)
  with d have "order_column ''business_id'' (c_new c) = Some (js b)"
    by (simp add: feed_delivers_def)
  then have "js (o_business_id (c_new c)) = js b" by (simp add: order_column_def)
  then show ?thesis by (rule js_inj)
qed

text \<open>
  The theorem at an insert event for an order of \<open>b1\<close>, which the session of \<open>b1\<close>
  receives; the session of \<open>b2\<close> does not receive it.
\<close>

theorem session_receives_own_business_witness:
  "session_receives ''b1'' (example_change INSERT ''b1'') \<and>
   o_business_id (c_new (example_change INSERT ''b1'')) = ''b1'' \<and>
   \<not> session_receives ''b2'' (example_change INSERT ''b1'')"
proof -
  have r: "session_receives ''b1'' (example_change INSERT ''b1'')"
    by (simp add: session_receives_def dashboard_listeners_def feed_delivers_def
        order_column_def example_change_def js_def)
  have n: "\<not> session_receives ''b2'' (example_change INSERT ''b1'')"
    by (simp add: session_receives_def dashboard_listeners_def feed_delivers_def
        order_column_def example_change_def js_def)
  from session_receives_own_business [OF r] r n show ?thesis by simp
qed

section \<open>Properties of the push subscriptions\<close>

lemma upsert_refused:
  "\<not> upsert_accepted se b e st \<Longrightarrow> push_subscriptions_upsert se i t b e p a st = st"
  by (simp add: push_subscriptions_upsert_def)

lemma upsert_endpoints:
  "map s_endpoint (push_subscriptions (push_subscriptions_upsert se i t b e p a st)) =
     (if upsert_accepted se b e st \<and> e \<notin> set (map s_endpoint (push_subscriptions st))
      then map s_endpoint (push_subscriptions st) @ [e]
      else map s_endpoint (push_subscriptions st))"
proof -
  have "map s_endpoint
          (map (\<lambda>r. if s_endpoint r = e
                     then r\<lparr>s_business_id := b, s_endpoint := e, s_p256dh := p, s_auth := a\<rparr>
                     else r) xs) = map s_endpoint xs" for xs
    by (induction xs) simp_all
  then show ?thesis by (simp add: push_subscriptions_upsert_def)
qed

lemma upsert_present:
  assumes "upsert_accepted se b e st" and "e \<in> set (map s_endpoint (push_subscriptions st))"
  shows "push_subscriptions (push_subscriptions_upsert se i t b e p a st) =
           map (\<lambda>r. if s_endpoint r = e
                     then r\<lparr>s_business_id := b, s_endpoint := e, s_p256dh := p, s_auth := a\<rparr>
                     else r) (push_subscriptions st)"
  using assms by (simp add: push_subscriptions_upsert_def)

lemma upsert_absent:
  assumes "upsert_accepted se b e st" and "e \<notin> set (map s_endpoint (push_subscriptions st))"
  shows "push_subscriptions (push_subscriptions_upsert se i t b e p a st) =
           push_subscriptions st @
             [\<lparr>s_id = i, s_business_id = b, s_endpoint = e, s_p256dh = p, s_auth = a,
               s_created_at = t\<rparr>]"
  using assms by (simp add: push_subscriptions_upsert_def)

lemma upsert_has_endpoint:
  "upsert_accepted se b e st \<Longrightarrow>
   e \<in> set (map s_endpoint (push_subscriptions (push_subscriptions_upsert se i t b e p a st)))"
  unfolding upsert_endpoints by simp

lemma upsert_keeps_endpoint:
  "e \<in> set (map s_endpoint (push_subscriptions st)) \<Longrightarrow>
   e \<in> set (map s_endpoint (push_subscriptions (push_subscriptions_upsert se i t b e' p a st)))"
  unfolding upsert_endpoints by simp

lemma upsert_distinct:
  assumes "distinct (map s_endpoint (push_subscriptions st))"
  shows "distinct (map s_endpoint (push_subscriptions (push_subscriptions_upsert se i t b e p a st)))"
  unfolding upsert_endpoints using assms by simp

text \<open>After an accepted upsert the rows of the endpoint carry what the call named.\<close>

lemma upsert_latest:
  assumes acc: "upsert_accepted se b e st"
    and r: "r \<in> set (push_subscriptions (push_subscriptions_upsert se i t b e p a st))"
    and e: "s_endpoint r = e"
  shows "s_business_id r = b \<and> s_p256dh r = p \<and> s_auth r = a"
proof (cases "e \<in> set (map s_endpoint (push_subscriptions st))")
  case True
  from r have "r \<in> (\<lambda>r0. if s_endpoint r0 = e
            then r0\<lparr>s_business_id := b, s_endpoint := e, s_p256dh := p, s_auth := a\<rparr>
            else r0) ` set (push_subscriptions st)"
    unfolding upsert_present [OF acc True] by simp
  then obtain r0 where
    "r = (if s_endpoint r0 = e
          then r0\<lparr>s_business_id := b, s_endpoint := e, s_p256dh := p, s_auth := a\<rparr>
          else r0)"
    by (rule imageE)
  with e show ?thesis by (cases "s_endpoint r0 = e") simp_all
next
  case False
  from r have "r \<in> set (push_subscriptions st) \<or>
      r = \<lparr>s_id = i, s_business_id = b, s_endpoint = e, s_p256dh = p, s_auth = a,
           s_created_at = t\<rparr>"
    unfolding upsert_absent [OF acc False] by auto
  moreover from False e have "r \<notin> set (push_subscriptions st)" by auto
  ultimately show ?thesis by auto
qed

lemma filter_endpoint_length:
  assumes "distinct (map s_endpoint xs)" and "e \<in> set (map s_endpoint xs)"
  shows "length (filter (\<lambda>r. s_endpoint r = e) xs) = 1"
  using assms
proof (induction xs)
  case Nil
  then show ?case by simp
next
  case (Cons x xs)
  show ?case
  proof (cases "s_endpoint x = e")
    case True
    with Cons.prems(1) have "e \<notin> set (map s_endpoint xs)" by auto
    then have "filter (\<lambda>r. s_endpoint r = e) xs = []"
      by (auto simp: filter_empty_conv)
    with True show ?thesis by simp
  next
    case False
    with Cons.prems have "distinct (map s_endpoint xs)" and "e \<in> set (map s_endpoint xs)"
      by auto
    with Cons.IH False show ?thesis by simp
  qed
qed

lemma filter_endpoint_le1:
  assumes "distinct (map s_endpoint xs)"
  shows "length (filter (\<lambda>r. s_endpoint r = e) xs) \<le> 1"
proof (cases "e \<in> set (map s_endpoint xs)")
  case True
  with assms show ?thesis by (simp add: filter_endpoint_length)
next
  case False
  then have "filter (\<lambda>r. s_endpoint r = e) xs = []"
    by (auto simp: filter_empty_conv)
  then show ?thesis by simp
qed

text \<open>
  C9 (as amended). On a table whose endpoints are distinct (the schema's unique
  constraint), after an endpoint is registered twice, with any keys and businesses and
  from any sessions, the endpoints are still distinct and at most one row has that
  endpoint; exactly one when the store accepted one of the two registrations. When the
  store accepts the second registration (the policy holds for the business registered
  and for the business of the row stored for the endpoint), that row carries the
  business and the keys of the second registration; when it refuses it, the table is as
  the first registration left it.
\<close>

theorem push_subscriptions_upsert_twice:
  assumes uniq: "distinct (map s_endpoint (push_subscriptions st))"
    and st1: "st1 = push_subscriptions_upsert se1 i1 t1 b1 e p1 a1 st"
    and st2: "st2 = push_subscriptions_upsert se2 i2 t2 b2 e p2 a2 st1"
  shows "distinct (map s_endpoint (push_subscriptions st2)) \<and>
         length (filter (\<lambda>r. s_endpoint r = e) (push_subscriptions st2)) \<le> 1 \<and>
         (upsert_accepted se1 b1 e st \<or> upsert_accepted se2 b2 e st1 \<longrightarrow>
            length (filter (\<lambda>r. s_endpoint r = e) (push_subscriptions st2)) = 1) \<and>
         (upsert_accepted se2 b2 e st1 \<longrightarrow>
            (\<forall>r \<in> set (push_subscriptions st2).
               s_endpoint r = e \<longrightarrow> s_business_id r = b2 \<and> s_p256dh r = p2 \<and> s_auth r = a2)) \<and>
         (\<not> upsert_accepted se2 b2 e st1 \<longrightarrow> st2 = st1)"
proof -
  have d1: "distinct (map s_endpoint (push_subscriptions st1))"
    unfolding st1 using uniq by (rule upsert_distinct)
  have d2: "distinct (map s_endpoint (push_subscriptions st2))"
    unfolding st2 using d1 by (rule upsert_distinct)
  from d2 have le: "length (filter (\<lambda>r. s_endpoint r = e) (push_subscriptions st2)) \<le> 1"
    by (rule filter_endpoint_le1)
  have one: "length (filter (\<lambda>r. s_endpoint r = e) (push_subscriptions st2)) = 1"
    if "upsert_accepted se1 b1 e st \<or> upsert_accepted se2 b2 e st1"
  proof -
    from that have "e \<in> set (map s_endpoint (push_subscriptions st2))"
    proof
      assume "upsert_accepted se1 b1 e st"
      then have "e \<in> set (map s_endpoint (push_subscriptions st1))"
        unfolding st1 by (rule upsert_has_endpoint)
      then show ?thesis unfolding st2 by (rule upsert_keeps_endpoint)
    next
      assume "upsert_accepted se2 b2 e st1"
      then show ?thesis unfolding st2 by (rule upsert_has_endpoint)
    qed
    with d2 show ?thesis by (rule filter_endpoint_length)
  qed
  have latest: "s_business_id r = b2 \<and> s_p256dh r = p2 \<and> s_auth r = a2"
    if "upsert_accepted se2 b2 e st1" and "r \<in> set (push_subscriptions st2)"
      and "s_endpoint r = e" for r
    using that unfolding st2 by (rule upsert_latest)
  have refused: "st2 = st1" if "\<not> upsert_accepted se2 b2 e st1"
    unfolding st2 using that by (rule upsert_refused)
  from d2 le one latest refused show ?thesis by blast
qed

lemma example_owner_simps:
  "owner_manages_push (example_session ''u1'') ''b1''"
  "owner_manages_push (example_session ''u1'') ''b3''"
  "\<not> owner_manages_push (example_session ''u2'') ''b1''"
  "owner_manages_push (example_session ''u2'') ''b2''"
  by (simp_all add: owner_manages_push_def example_session_def example_owner_def)

lemma example_first_registration:
  "push_subscriptions_upsert (example_session ''u1'') ''s1'' 5 ''b1'' ''https://push/e1''
     ''k1'' ''a1'' example_push_store = example_registered ''b1'' ''k1'' ''a1''"
  by (simp add: push_subscriptions_upsert_def upsert_accepted_def example_owner_simps
      example_push_store_def example_sub_def example_registered_def)

lemma example_second_accepted:
  "upsert_accepted (example_session ''u1'') ''b3'' ''https://push/e1''
     (example_registered ''b1'' ''k1'' ''a1'')"
  by (simp add: upsert_accepted_def example_owner_simps example_registered_def example_sub_def)

lemma example_second_refused:
  "\<not> upsert_accepted (example_session ''u2'') ''b2'' ''https://push/e1''
     (example_registered ''b1'' ''k1'' ''a1'')"
  by (simp add: upsert_accepted_def example_owner_simps example_registered_def example_sub_def)

text \<open>
  The theorem at a store that holds the subscription of another device: the user \<open>u1\<close>
  registers the endpoint \<open>e1\<close> for the business \<open>b1\<close> and then, with new keys, for the
  business \<open>b3\<close>, also theirs.
\<close>

theorem push_subscriptions_upsert_twice_witness:
  "push_subscriptions_upsert (example_session ''u1'') ''s2'' 6 ''b3'' ''https://push/e1''
     ''k2'' ''a2''
     (push_subscriptions_upsert (example_session ''u1'') ''s1'' 5 ''b1'' ''https://push/e1''
        ''k1'' ''a1'' example_push_store) = example_registered ''b3'' ''k2'' ''a2'' \<and>
   length (filter (\<lambda>r. s_endpoint r = ''https://push/e1'')
     (push_subscriptions (example_registered ''b3'' ''k2'' ''a2''))) = 1 \<and>
   list_all (\<lambda>r. s_endpoint r \<noteq> ''https://push/e1'' \<or>
                 (s_business_id r = ''b3'' \<and> s_p256dh r = ''k2'' \<and> s_auth r = ''a2''))
     (push_subscriptions (example_registered ''b3'' ''k2'' ''a2''))"
proof -
  have uniq: "distinct (map s_endpoint (push_subscriptions example_push_store))"
    by (simp add: example_push_store_def)
  have ev: "push_subscriptions_upsert (example_session ''u1'') ''s2'' 6 ''b3''
      ''https://push/e1'' ''k2'' ''a2'' (example_registered ''b1'' ''k1'' ''a1'') =
      example_registered ''b3'' ''k2'' ''a2''"
    using example_second_accepted
    by (simp add: push_subscriptions_upsert_def example_registered_def example_sub_def)
  note inst = push_subscriptions_upsert_twice [OF uniq example_first_registration [symmetric]
      ev [symmetric]]
  from inst example_second_accepted
  have one: "length (filter (\<lambda>r. s_endpoint r = ''https://push/e1'')
     (push_subscriptions (example_registered ''b3'' ''k2'' ''a2''))) = 1"
    by blast
  from inst example_second_accepted
  have "\<forall>r \<in> set (push_subscriptions (example_registered ''b3'' ''k2'' ''a2'')).
      s_endpoint r = ''https://push/e1'' \<longrightarrow>
      s_business_id r = ''b3'' \<and> s_p256dh r = ''k2'' \<and> s_auth r = ''a2''"
    by blast
  then have latest: "list_all (\<lambda>r. s_endpoint r \<noteq> ''https://push/e1'' \<or>
                 (s_business_id r = ''b3'' \<and> s_p256dh r = ''k2'' \<and> s_auth r = ''a2''))
     (push_subscriptions (example_registered ''b3'' ''k2'' ''a2''))"
    unfolding list_all_iff by blast
  from ev one latest show ?thesis
    unfolding example_first_registration by blast
qed

text \<open>
  The claim as stated fails when the endpoint moves to a business of another owner, the
  case it names. The user \<open>u1\<close> has registered \<open>e1\<close> for \<open>b1\<close>; the user \<open>u2\<close>, signed in
  on the same device, registers it with new keys for \<open>b2\<close>. The policy does not hold for
  \<open>u2\<close> on the stored row of \<open>b1\<close>, the store refuses the upsert, and the record keeps the
  business and the keys of the first registration, while \<open>subscribeToPush\<close> returns
  \<open>true\<close>.
\<close>

theorem push_subscriptions_upsert_other_owner_counterexample:
  "push_subscriptions_upsert (example_session ''u2'') ''s2'' 6 ''b2'' ''https://push/e1''
     ''k2'' ''a2''
     (push_subscriptions_upsert (example_session ''u1'') ''s1'' 5 ''b1'' ''https://push/e1''
        ''k1'' ''a1'' example_push_store) = example_registered ''b1'' ''k1'' ''a1'' \<and>
   example_registered ''b1'' ''k1'' ''a1'' \<noteq> example_registered ''b2'' ''k2'' ''a2'' \<and>
   subscribeToPush
     ((example_push_env (Some ''granted'')
         (Some \<lparr>ps_endpoint = ''https://push/e1'', ps_keys = Some (''k2'', ''a2'')\<rparr>))
        \<lparr>pe_session := example_session ''u2''\<rparr>)
     ''b2'' (example_registered ''b1'' ''k1'' ''a1'') =
     (True, example_registered ''b1'' ''k1'' ''a1'')"
proof (intro conjI)
  show "push_subscriptions_upsert (example_session ''u2'') ''s2'' 6 ''b2'' ''https://push/e1''
     ''k2'' ''a2''
     (push_subscriptions_upsert (example_session ''u1'') ''s1'' 5 ''b1'' ''https://push/e1''
        ''k1'' ''a1'' example_push_store) = example_registered ''b1'' ''k1'' ''a1''"
    unfolding example_first_registration using example_second_refused
    by (rule upsert_refused)
  show "example_registered ''b1'' ''k1'' ''a1'' \<noteq> example_registered ''b2'' ''k2'' ''a2''"
    by (simp add: example_registered_def)
  have "push_subscriptions_upsert (example_session ''u2'') ''s1'' 5 ''b2'' ''https://push/e1''
     ''k2'' ''a2'' (example_registered ''b1'' ''k1'' ''a1'') = example_registered ''b1'' ''k1'' ''a1''"
    using example_second_refused by (rule upsert_refused)
  then show "subscribeToPush
     ((example_push_env (Some ''granted'')
         (Some \<lparr>ps_endpoint = ''https://push/e1'', ps_keys = Some (''k2'', ''a2'')\<rparr>))
        \<lparr>pe_session := example_session ''u2''\<rparr>)
     ''b2'' (example_registered ''b1'' ''k1'' ''a1'') =
     (True, example_registered ''b1'' ''k1'' ''a1'')"
    by (simp add: subscribeToPush_def example_push_env_def)
qed

lemma subscribeToPush_unsupported:
  "\<not> pe_serviceWorker_in_navigator env \<or> \<not> pe_PushManager_in_window env \<Longrightarrow>
   subscribeToPush env b st = (False, st)"
  by (simp add: subscribeToPush_def)

lemma subscribeToPush_not_granted:
  "pe_permission env \<noteq> Some ''granted'' \<Longrightarrow> subscribeToPush env b st = (False, st)"
  by (cases "pe_permission env") (simp_all add: subscribeToPush_def)

lemma subscribeToPush_subscribe_fails:
  "pe_subscribe env = None \<Longrightarrow> subscribeToPush env b st = (False, st)"
  by (cases "pe_permission env") (simp_all add: subscribeToPush_def)

lemma subscribeToPush_True:
  assumes "fst (subscribeToPush env b st) \<or> snd (subscribeToPush env b st) \<noteq> st"
  shows "pe_serviceWorker_in_navigator env \<and> pe_PushManager_in_window env \<and>
         pe_permission env = Some ''granted'' \<and> pe_subscribe env \<noteq> None \<and>
         fst (subscribeToPush env b st)"
  using assms
  by (auto simp: subscribeToPush_def split: option.splits if_splits prod.splits)

text \<open>
  C10. When the browser lacks the service worker or the push manager, when the
  permission is anything but \<open>granted\<close> (or asking for it fails), or when the browser's
  subscription fails, \<open>subscribeToPush\<close> returns \<open>false\<close> and the store is as it was.
  The other way round: a call that returns \<open>true\<close> or changes the store had support,
  the permission and a browser subscription.
\<close>

theorem subscribeToPush_failure_writes_nothing:
  "((\<not> pe_serviceWorker_in_navigator env \<or> \<not> pe_PushManager_in_window env) \<or>
    pe_permission env \<noteq> Some ''granted'' \<or> pe_subscribe env = None \<longrightarrow>
      subscribeToPush env b st = (False, st)) \<and>
   (fst (subscribeToPush env b st) \<or> snd (subscribeToPush env b st) \<noteq> st \<longrightarrow>
      pe_serviceWorker_in_navigator env \<and> pe_PushManager_in_window env \<and>
      pe_permission env = Some ''granted'' \<and> pe_subscribe env \<noteq> None \<and>
      fst (subscribeToPush env b st))"
proof (intro conjI impI)
  assume "(\<not> pe_serviceWorker_in_navigator env \<or> \<not> pe_PushManager_in_window env) \<or>
    pe_permission env \<noteq> Some ''granted'' \<or> pe_subscribe env = None"
  then show "subscribeToPush env b st = (False, st)"
  proof (elim disjE)
    assume "\<not> pe_serviceWorker_in_navigator env"
    then show ?thesis by (simp add: subscribeToPush_unsupported)
  next
    assume "\<not> pe_PushManager_in_window env"
    then show ?thesis by (simp add: subscribeToPush_unsupported)
  next
    assume "pe_permission env \<noteq> Some ''granted''"
    then show ?thesis by (rule subscribeToPush_not_granted)
  next
    assume "pe_subscribe env = None"
    then show ?thesis by (rule subscribeToPush_subscribe_fails)
  qed
next
  assume a: "fst (subscribeToPush env b st) \<or> snd (subscribeToPush env b st) \<noteq> st"
  from subscribeToPush_True [OF a]
  show "pe_serviceWorker_in_navigator env" and "pe_PushManager_in_window env"
    and "pe_permission env = Some ''granted''" and "pe_subscribe env \<noteq> None"
    and "fst (subscribeToPush env b st)"
    by simp_all
qed

text \<open>
  The theorem at a browser that denies the permission, at one whose subscription fails,
  and at one where everything succeeds and the endpoint \<open>e1\<close> is stored.
\<close>

theorem subscribeToPush_failure_writes_nothing_witness:
  "subscribeToPush (example_push_env (Some ''denied'') None) ''b1'' example_push_store =
     (False, example_push_store) \<and>
   subscribeToPush (example_push_env (Some ''granted'') None) ''b1'' example_push_store =
     (False, example_push_store) \<and>
   subscribeToPush
     (example_push_env (Some ''granted'')
        (Some \<lparr>ps_endpoint = ''https://push/e1'', ps_keys = Some (''k1'', ''a1'')\<rparr>))
     ''b1'' example_push_store =
     (True, example_push_store\<lparr>push_subscriptions :=
        [example_sub,
         \<lparr>s_id = ''s1'', s_business_id = ''b1'', s_endpoint = ''https://push/e1'',
          s_p256dh = ''k1'', s_auth = ''a1'', s_created_at = 5\<rparr>]\<rparr>) \<and>
   pe_subscribe
     (example_push_env (Some ''granted'')
        (Some \<lparr>ps_endpoint = ''https://push/e1'', ps_keys = Some (''k1'', ''a1'')\<rparr>)) \<noteq> None"
proof -
  have denied: "pe_permission (example_push_env (Some ''denied'') None) \<noteq> Some ''granted''"
    by (simp add: example_push_env_def)
  have failed: "pe_subscribe (example_push_env (Some ''granted'') None) = None"
    by (simp add: example_push_env_def)
  have ok: "subscribeToPush
     (example_push_env (Some ''granted'')
        (Some \<lparr>ps_endpoint = ''https://push/e1'', ps_keys = Some (''k1'', ''a1'')\<rparr>))
     ''b1'' example_push_store =
     (True, example_push_store\<lparr>push_subscriptions :=
        [example_sub,
         \<lparr>s_id = ''s1'', s_business_id = ''b1'', s_endpoint = ''https://push/e1'',
          s_p256dh = ''k1'', s_auth = ''a1'', s_created_at = 5\<rparr>]\<rparr>)"
    by (simp add: subscribeToPush_def example_push_env_def push_subscriptions_upsert_def
        upsert_accepted_def example_owner_simps example_push_store_def example_sub_def)
  from subscribeToPush_failure_writes_nothing [of "example_push_env (Some ''denied'') None"
      "''b1''" example_push_store] denied
  have a: "subscribeToPush (example_push_env (Some ''denied'') None) ''b1'' example_push_store =
     (False, example_push_store)"
    by blast
  from subscribeToPush_failure_writes_nothing [of "example_push_env (Some ''granted'') None"
      "''b1''" example_push_store] failed
  have b: "subscribeToPush (example_push_env (Some ''granted'') None) ''b1'' example_push_store =
     (False, example_push_store)"
    by blast
  from subscribeToPush_failure_writes_nothing [of "example_push_env (Some ''granted'')
        (Some \<lparr>ps_endpoint = ''https://push/e1'', ps_keys = Some (''k1'', ''a1'')\<rparr>)"
      "''b1''" example_push_store] ok
  have c: "pe_subscribe
     (example_push_env (Some ''granted'')
        (Some \<lparr>ps_endpoint = ''https://push/e1'', ps_keys = Some (''k1'', ''a1'')\<rparr>)) \<noteq> None"
    by simp
  from a b ok c show ?thesis by blast
qed

end
